theory Spec2Isabelle
  imports Main
begin

section \<open>The pretty-printer of pykis/utils/repr.py\<close>

text \<open>
  The module renders Python values as text: dictionaries, lists, tuples and sets are
  rendered recursively, objects whose class was decorated with \<^verbatim>\<open>kis_repr\<close> are
  rendered as \<^verbatim>\<open>Name(field=value, ...)\<close>, and everything else through the built-in
  \<^verbatim>\<open>repr\<close>. Python objects are mutable and may refer to themselves, so containers and
  decorated objects live in a store and are reached through references; a cyclic list is a
  store cell that holds a reference to itself.
\<close>

subsection \<open>Values\<close>

text \<open>
  A leaf is a value that the renderer hands to the built-in \<^verbatim>\<open>repr\<close>: an integer, a
  string, or any other object, given by the text that its own \<^verbatim>\<open>__repr__\<close> returns.
  That text is fixed: computing it does not call back into this module. Strings are
  sequences of code points below 256.
\<close>

datatype leaf = PyInt int | PyStr string | PyOther string

text \<open>
  \<open>Unbounded\<close> is the module's singleton \<^verbatim>\<open>UNBOUNDED\<close>; \<open>Ref a\<close> is the object in
  cell \<open>a\<close> of the store.
\<close>

datatype pyval = Leaf leaf | Unbounded | Ref nat

text \<open>\<^verbatim>\<open>REPR_LINE_MODE = Literal["single", "multiple"]\<close>\<close>

datatype line_mode = Single | Multiple

fun mode_text :: "line_mode \<Rightarrow> string" where
  "mode_text Single = ''single''"
| "mode_text Multiple = ''multiple''"

text \<open>
  What \<^verbatim>\<open>getattr(obj, field)\<close> does: it returns a value, raises \<^verbatim>\<open>AttributeError\<close>, or
  (a property, a \<^verbatim>\<open>__getattr__\<close> hook) raises some other exception, given by its name.
\<close>

datatype getattr_result = Value pyval | AttributeError | Raises string

text \<open>
  An object: the name of its class, the names \<^verbatim>\<open>dir(obj)\<close> lists, the outcome of reading
  each attribute (a name that is not listed raises \<^verbatim>\<open>AttributeError\<close>), and the
  arguments its class gave to the decorator \<^verbatim>\<open>kis_repr\<close>.
\<close>

record kis_object =
  class_name :: string
  dir :: "string list"
  attrs :: "(string \<times> getattr_result) list"
  kis_fields :: "string list"
  kis_lines :: "line_mode option"
  kis_field_lines :: "(string \<times> line_mode) list option"
  kis_indent :: string
  kis_max_depth :: int

text \<open>
  The cells of the store. The keys of a dictionary are leaves: \<^verbatim>\<open>dict_repr\<close> hands every
  key to the built-in \<^verbatim>\<open>repr\<close>, and a key whose \<^verbatim>\<open>repr\<close> enters this module again
  (an object of a decorated class, a tuple that holds one) is not a value of the model.
\<close>

datatype pyobj =
    Dict "(leaf \<times> pyval) list"
  | List "pyval list"
  | Tuple "pyval list"
  | PySet "pyval list"
  | KisObject kis_object

type_synonym heap = "pyobj list"

text \<open>
  The exceptions a render call can end with. \<open>ValueError\<close> and \<open>TypeError\<close> are raised
  by the module and the interpreter, \<open>Raised\<close> is an exception of a field accessor passing
  through. \<open>BadRef\<close> is not a Python exception: it marks a reference to a cell the store
  does not have, which no Python state contains.
\<close>

datatype error = ValueError string | TypeError string | Raised string | BadRef nat

subsection \<open>Built-ins\<close>

definition SINGLE_LINE_MAX_LENGTH :: int where
  "SINGLE_LINE_MAX_LENGTH = 120"

text \<open>\<^verbatim>\<open>x or y\<close> for an optional integer \<open>x\<close>: \<^verbatim>\<open>None\<close> and \<open>0\<close> are both false.\<close>

fun py_or :: "int option \<Rightarrow> int \<Rightarrow> int" where
  "py_or None y = y"
| "py_or (Some x) y = (if x = 0 then y else x)"

fun digits :: "nat \<Rightarrow> string" where
  "digits n = (if n < 10 then [''0123456789'' ! n]
               else digits (n div 10) @ [''0123456789'' ! (n mod 10)])"

definition int_repr :: "int \<Rightarrow> string" where
  "int_repr i = (if i < 0 then ''-'' @ digits (nat (- i)) else digits (nat i))"

text \<open>
  \<^verbatim>\<open>repr\<close> of a string, as CPython computes it: double quotes when the string has a single
  quote and no double quote, single quotes otherwise; the quote and the backslash are
  escaped, and so is every character that is not printable.
\<close>

definition hex2 :: "nat \<Rightarrow> string" where
  "hex2 n = [''0123456789abcdef'' ! (n div 16), ''0123456789abcdef'' ! (n mod 16)]"

definition printable :: "char \<Rightarrow> bool" where
  "printable c = (let n = (of_char c :: nat) in
     (32 \<le> n \<and> n < 127) \<or> (161 \<le> n \<and> n \<noteq> 173))"

definition repr_char :: "char \<Rightarrow> char \<Rightarrow> string" where
  "repr_char q c =
     (if c = q \<or> c = CHR 0x5C then [CHR 0x5C, c]
      else if c = CHR 0x09 then [CHR 0x5C, CHR ''t'']
      else if c = CHR 0x0A then [CHR 0x5C, CHR ''n'']
      else if c = CHR 0x0D then [CHR 0x5C, CHR ''r'']
      else if printable c then [c]
      else [CHR 0x5C, CHR ''x''] @ hex2 (of_char c))"

definition str_repr :: "string \<Rightarrow> string" where
  "str_repr s =
     (let q = (if CHR 0x27 \<in> set s \<and> CHR 0x22 \<notin> set s then CHR 0x22 else CHR 0x27)
      in [q] @ concat (map (repr_char q) s) @ [q])"

fun builtin_repr :: "leaf \<Rightarrow> string" where
  "builtin_repr (PyInt i) = int_repr i"
| "builtin_repr (PyStr s) = str_repr s"
| "builtin_repr (PyOther r) = r"

text \<open>\<^verbatim>\<open>UnboundedType.__repr__\<close>\<close>

definition UnboundedType_repr :: string where
  "UnboundedType_repr = ''Unbounded''"

text \<open>
  \<^verbatim>\<open>str.splitlines()\<close>: a line ends at \<^verbatim>\<open>\n\<close>, \<^verbatim>\<open>\r\<close>, \<^verbatim>\<open>\r\n\<close>, \<^verbatim>\<open>\v\<close>, \<^verbatim>\<open>\f\<close>,
  \<^verbatim>\<open>\x1c\<close>, \<^verbatim>\<open>\x1d\<close>, \<^verbatim>\<open>\x1e\<close> or \<^verbatim>\<open>\x85\<close>, and a line break at the very end opens no
  further line.
\<close>

definition line_boundary :: "char \<Rightarrow> bool" where
  "line_boundary c = (c \<in> {CHR 0x0A, CHR 0x0B, CHR 0x0C, CHR 0x1C, CHR 0x1D, CHR 0x1E, CHR 0x85})"

fun splitlines_from :: "string \<Rightarrow> string \<Rightarrow> string list" where
  "splitlines_from cur [] = (if cur = [] then [] else [cur])"
| "splitlines_from cur (c # cs) =
     (if c = CHR 0x0D then
        (case cs of
           [] \<Rightarrow> [cur]
         | d # ds \<Rightarrow> if d = CHR 0x0A then cur # splitlines_from [] ds
                     else cur # splitlines_from [] cs)
      else if line_boundary c then cur # splitlines_from [] cs
      else splitlines_from (cur @ [c]) cs)"

definition splitlines :: "string \<Rightarrow> string list" where
  "splitlines s = splitlines_from [] s"

text \<open>
  A loop that writes its items to the buffer with a separator before every item but the
  first (\<^verbatim>\<open>if i > 0: sb.write(sep)\<close>).
\<close>

fun write_separated :: "string \<Rightarrow> string list \<Rightarrow> string" where
  "write_separated sep [] = []"
| "write_separated sep [x] = x"
| "write_separated sep (x # y # ys) = x @ sep @ write_separated sep (y # ys)"

text \<open>\<^verbatim>\<open>_append_with_indent\<close>: the text it writes to the buffer.\<close>

definition u_append_with_indent :: "string \<Rightarrow> string \<Rightarrow> string" where
  "u_append_with_indent v indent =
     write_separated ''\<newline>'' (map (\<lambda>l. indent @ l) (splitlines v))"

text \<open>
  \<^verbatim>\<open>for i, x in enumerate(xs): if i >= limit: break\<close>: the items the loop body sees.
\<close>

fun enumerate_until :: "int \<Rightarrow> int \<Rightarrow> 'a list \<Rightarrow> 'a list" where
  "enumerate_until i limit [] = []"
| "enumerate_until i limit (x # xs) =
     (if i \<ge> limit then [] else x # enumerate_until (i + 1) limit xs)"

text \<open>The first exception of a row of results, in order, or all their values.\<close>

fun collect :: "('e + 'a) list \<Rightarrow> 'e + 'a list" where
  "collect [] = Inr []"
| "collect (Inl e # rs) = Inl e"
| "collect (Inr x # rs) = (case collect rs of Inl e \<Rightarrow> Inl e | Inr xs \<Rightarrow> Inr (x # xs))"

definition startswith :: "string \<Rightarrow> string \<Rightarrow> bool" where
  "startswith s p = (take (length p) s = p)"

text \<open>\<^verbatim>\<open>getattr(obj, field)\<close>\<close>

definition getattr :: "kis_object \<Rightarrow> string \<Rightarrow> getattr_result" where
  "getattr obj field = (case map_of (attrs obj) field of None \<Rightarrow> AttributeError | Some r \<Rightarrow> r)"

text \<open>
  The \<^verbatim>\<open>try\<close> statement of \<^verbatim>\<open>object_repr\<close>: \<^verbatim>\<open>except AttributeError\<close> puts
  \<^verbatim>\<open>UNBOUNDED\<close> in the place of the value, and no other exception is caught.
\<close>

definition resolve_field :: "kis_object \<Rightarrow> string \<Rightarrow> error + pyval" where
  "resolve_field obj field =
     (case getattr obj field of
        Value v \<Rightarrow> Inr v
      | AttributeError \<Rightarrow> Inr Unbounded
      | Raises e \<Rightarrow> Inl (Raised e))"

text \<open>
  The fields \<^verbatim>\<open>object_repr\<close> renders: those it is given, or every name of
  \<^verbatim>\<open>dir(obj)\<close> that does not start with an underscore.
\<close>

definition object_fields :: "kis_object \<Rightarrow> string list option \<Rightarrow> string list" where
  "object_fields obj flds =
     (case flds of
        None \<Rightarrow> filter (\<lambda>f. \<not> startswith f ''_'') (dir obj)
      | Some fs \<Rightarrow> fs)"

text \<open>
  An entry of \<^verbatim>\<open>values\<close> in \<^verbatim>\<open>object_repr\<close>: the rendered text of the field, or the
  object \<^verbatim>\<open>UNBOUNDED\<close> itself.
\<close>

datatype rendered = Text string | Sentinel

text \<open>\<^verbatim>\<open>len(v)\<close>, \<^verbatim>\<open>"\n" in v\<close> and \<^verbatim>\<open>f"{v}"\<close> on such an entry.\<close>

fun py_len :: "rendered \<Rightarrow> error + int" where
  "py_len (Text s) = Inr (int (length s))"
| \<open>py_len Sentinel = Inl (TypeError ''object of type 'UnboundedType' has no len()'')\<close>

fun has_newline :: "rendered \<Rightarrow> error + bool" where
  "has_newline (Text s) = Inr (CHR 0x0A \<in> set s)"
| \<open>has_newline Sentinel = Inl (TypeError ''argument of type 'UnboundedType' is not iterable'')\<close>

fun format_rendered :: "rendered \<Rightarrow> string" where
  "format_rendered (Text s) = s"
| "format_rendered Sentinel = UnboundedType_repr"

text \<open>\<^verbatim>\<open>sum(len(k) + len(v) + 2 for k, v in values)\<close>, raising where \<^verbatim>\<open>len\<close> raises.\<close>

fun sum_field_costs :: "(string \<times> rendered) list \<Rightarrow> error + int" where
  "sum_field_costs [] = Inr 0"
| "sum_field_costs ((k, v) # kvs) =
     (case py_len v of
        Inl e \<Rightarrow> Inl e
      | Inr n \<Rightarrow> (case sum_field_costs kvs of
                    Inl e \<Rightarrow> Inl e
                  | Inr m \<Rightarrow> Inr (int (length k) + n + 2 + m)))"

text \<open>\<^verbatim>\<open>any("\n" in v for _, v in values)\<close>, which stops at the first hit.\<close>

fun any_newline :: "(string \<times> rendered) list \<Rightarrow> error + bool" where
  "any_newline [] = Inr False"
| "any_newline ((k, v) # kvs) =
     (case has_newline v of
        Inl e \<Rightarrow> Inl e
      | Inr b \<Rightarrow> if b then Inr True else any_newline kvs)"

text \<open>
  The layout \<^verbatim>\<open>object_repr\<close> computes when \<^verbatim>\<open>lines is None\<close>; \<^verbatim>\<open>and\<close> evaluates its
  operands from the left and stops at the first false one.
\<close>

definition object_layout :: "(string \<times> rendered) list \<Rightarrow> error + line_mode" where
  "object_layout values =
     (if \<not> int (length values) \<le> 5 then Inr Multiple
      else case sum_field_costs values of
        Inl e \<Rightarrow> Inl e
      | Inr cost \<Rightarrow>
          if \<not> cost - 1 \<le> SINGLE_LINE_MAX_LENGTH then Inr Multiple
          else case any_newline values of
            Inl e \<Rightarrow> Inl e
          | Inr b \<Rightarrow> Inr (if \<not> b then Single else Multiple))"

text \<open>The same for \<^verbatim>\<open>dict_repr\<close> and \<^verbatim>\<open>_iterable_repr\<close>, whose entries are all strings.\<close>

definition dict_layout :: "(string \<times> string) list \<Rightarrow> bool \<Rightarrow> line_mode" where
  "dict_layout values has_ellipsis =
     (if int (length values) \<le> 5
         \<and> \<not> has_ellipsis
         \<and> (\<Sum>(k, v) \<leftarrow> values. int (length k) + int (length v) + 4) - 1 \<le> SINGLE_LINE_MAX_LENGTH
         \<and> \<not> list_ex (\<lambda>(k, v). CHR 0x0A \<in> set v) values
      then Single else Multiple)"

definition iterable_layout :: "string list \<Rightarrow> bool \<Rightarrow> line_mode" where
  "iterable_layout values has_ellipsis =
     (if int (length values) \<le> 5
         \<and> \<not> has_ellipsis
         \<and> (\<Sum>v \<leftarrow> values. int (length v) + 2) - 1 \<le> SINGLE_LINE_MAX_LENGTH
         \<and> \<not> list_ex (\<lambda>v. CHR 0x0A \<in> set v) values
      then Single else Multiple)"

subsection \<open>The text each renderer writes once its children are rendered\<close>

text \<open>
  \<^verbatim>\<open>dict_repr\<close> tests \<^verbatim>\<open>if lines:\<close>, the truth value of the string \<^verbatim>\<open>lines\<close>, and writes
  each key as \<^verbatim>\<open>{k!r}\<close>, where \<open>k\<close> already is the \<^verbatim>\<open>repr\<close> of the key.
\<close>

definition dict_write :: "(string \<times> string) list \<Rightarrow> line_mode \<Rightarrow> bool \<Rightarrow> string \<Rightarrow> string" where
  "dict_write values lines has_ellipsis indent =
     (if mode_text lines \<noteq> [] then
        ''{'' @ write_separated '', '' (map (\<lambda>(k, v). str_repr k @ '': '' @ v) values)
        @ (if has_ellipsis then '', ...'' else [])
        @ ''}''
      else
        ''{\<newline>''
        @ write_separated '',\<newline>''
            (map (\<lambda>(k, v). u_append_with_indent (str_repr k @ '': '' @ v) indent) values)
        @ ''\<newline>''
        @ (if has_ellipsis then indent @ ''...\<newline>'' else [])
        @ ''}'')"

definition iterable_write ::
  "string \<Rightarrow> string \<Rightarrow> string list \<Rightarrow> line_mode \<Rightarrow> bool \<Rightarrow> string \<Rightarrow> string" where
  "iterable_write open_tie close_tie values lines has_ellipsis indent =
     (if mode_text lines = ''single'' then
        open_tie @ write_separated '', '' values
        @ (if has_ellipsis then '', ...'' else [])
        @ close_tie
      else
        open_tie @ ''\<newline>''
        @ write_separated '',\<newline>'' (map (\<lambda>v. u_append_with_indent v indent) values)
        @ ''\<newline>''
        @ (if has_ellipsis then indent @ ''...\<newline>'' else [])
        @ close_tie)"

definition object_write :: "string \<Rightarrow> (string \<times> rendered) list \<Rightarrow> line_mode \<Rightarrow> string \<Rightarrow> string" where
  "object_write name values lines indent =
     (if mode_text lines = ''single'' then
        name @ ''(''
        @ write_separated '', '' (map (\<lambda>(k, v). k @ ''='' @ format_rendered v) values)
        @ '')''
      else
        name @ ''(\<newline>''
        @ write_separated '',\<newline>''
            (map (\<lambda>(k, v). u_append_with_indent (k @ ''='' @ format_rendered v) indent) values)
        @ ''\<newline>)'')"

text \<open>\<^verbatim>\<open>field_lines.get(field) if field_lines else None\<close>; an empty dictionary is false.\<close>

definition field_mode :: "(string \<times> line_mode) list option \<Rightarrow> string \<Rightarrow> line_mode option" where
  "field_mode field_lines field =
     (case field_lines of
        None \<Rightarrow> None
      | Some fl \<Rightarrow> if fl = [] then None else map_of fl field)"

text \<open>
  The largest \<^verbatim>\<open>max_depth\<close> in sight: that of the call and those of the decorated classes
  of the store. Every object of the store was rendered or cut off before the depth passes it.
\<close>

fun class_depths :: "heap \<Rightarrow> int list" where
  "class_depths [] = []"
| "class_depths (KisObject ob # h) = kis_max_depth ob # class_depths h"
| "class_depths (_ # h) = class_depths h"

definition depth_bound :: "heap \<Rightarrow> int \<Rightarrow> int" where
  "depth_bound h max_depth = Max (set (max_depth # class_depths h))"

subsection \<open>The renderers\<close>

text \<open>
  The functions of the module, each with the parameters it has in the source after the
  store \<open>h\<close>. \<open>u_repr\<close> is \<^verbatim>\<open>_repr\<close>, \<open>u_iterable_repr\<close> is \<^verbatim>\<open>_iterable_repr\<close>, and
  \<open>kis_repr\<close> is the method \<^verbatim>\<open>__repr__(self, _depth)\<close> that the decorator \<^verbatim>\<open>kis_repr\<close>
  installs on a class. \<^verbatim>\<open>_repr\<close> passes no \<^verbatim>\<open>ellipsis\<close> on, and calls the installed
  method with the depth alone: the object is rendered with the \<^verbatim>\<open>max_depth\<close> and the
  \<^verbatim>\<open>indent\<close> of its class.
\<close>

function u_repr :: "heap \<Rightarrow> pyval \<Rightarrow> line_mode option \<Rightarrow> string \<Rightarrow> int \<Rightarrow> int \<Rightarrow> error + string"
  and dict_repr :: "heap \<Rightarrow> (leaf \<times> pyval) list \<Rightarrow> line_mode option \<Rightarrow> string \<Rightarrow> int option \<Rightarrow> int \<Rightarrow> int \<Rightarrow> error + string"
  and list_repr :: "heap \<Rightarrow> pyval list \<Rightarrow> line_mode option \<Rightarrow> string \<Rightarrow> int option \<Rightarrow> int \<Rightarrow> int \<Rightarrow> error + string"
  and tuple_repr :: "heap \<Rightarrow> pyval list \<Rightarrow> line_mode option \<Rightarrow> string \<Rightarrow> int option \<Rightarrow> int \<Rightarrow> int \<Rightarrow> error + string"
  and set_repr :: "heap \<Rightarrow> pyval list \<Rightarrow> line_mode option \<Rightarrow> string \<Rightarrow> int option \<Rightarrow> int \<Rightarrow> int \<Rightarrow> error + string"
  and u_iterable_repr :: "heap \<Rightarrow> pyval list \<Rightarrow> string \<Rightarrow> line_mode option \<Rightarrow> string \<Rightarrow> int option \<Rightarrow> int \<Rightarrow> int \<Rightarrow> error + string"
  and object_repr :: "heap \<Rightarrow> kis_object \<Rightarrow> string list option \<Rightarrow> line_mode option \<Rightarrow> (string \<times> line_mode) list option \<Rightarrow> string \<Rightarrow> int \<Rightarrow> int \<Rightarrow> error + string"
  and kis_repr :: "heap \<Rightarrow> kis_object \<Rightarrow> int \<Rightarrow> error + string"
where
  "u_repr h obj lines indent max_depth depth =
     (if depth \<ge> max_depth then Inr ''...''
      else case obj of
        Ref a \<Rightarrow>
          (if a < length h then
             (case h ! a of
                Dict dct \<Rightarrow> dict_repr h dct lines indent None max_depth depth
              | List lst \<Rightarrow> list_repr h lst lines indent None max_depth depth
              | Tuple tpl \<Rightarrow> tuple_repr h tpl lines indent None max_depth depth
              | PySet st \<Rightarrow> set_repr h st lines indent None max_depth depth
              | KisObject ob \<Rightarrow> kis_repr h ob depth)
           else Inl (BadRef a))
      | Leaf l \<Rightarrow> Inr (builtin_repr l)
      | Unbounded \<Rightarrow> Inr UnboundedType_repr)"
| "dict_repr h dct lines indent ellipsis max_depth depth =
     (if depth \<ge> max_depth then Inr ''{:...}''
      else
        let len = int (length dct);
            has_ellipsis = len > py_or ellipsis len
        in case collect (map (\<lambda>(k, v).
                     case u_repr h v None indent max_depth (depth + 1) of
                       Inl e \<Rightarrow> Inl e
                     | Inr s \<Rightarrow> Inr (builtin_repr k, s))
                   (enumerate_until 0 (py_or ellipsis len) dct)) of
             Inl e \<Rightarrow> Inl e
           | Inr values \<Rightarrow>
               Inr (dict_write values
                      (case lines of None \<Rightarrow> dict_layout values has_ellipsis | Some l \<Rightarrow> l)
                      has_ellipsis indent))"
| "list_repr h lst lines indent ellipsis max_depth depth =
     u_iterable_repr h lst ''[]'' lines indent ellipsis max_depth depth"
| "tuple_repr h tpl lines indent ellipsis max_depth depth =
     u_iterable_repr h tpl ''()'' lines indent ellipsis max_depth depth"
| "set_repr h st lines indent ellipsis max_depth depth =
     u_iterable_repr h st ''{}'' lines indent ellipsis max_depth depth"
| "u_iterable_repr h lst tie lines indent ellipsis max_depth depth =
     (if length tie = 0 \<or> length tie mod 2 \<noteq> 0 then Inl (ValueError ''tie must be even length'')
      else
        let open_tie = take (length tie div 2) tie;
            close_tie = drop (length tie div 2) tie
        in if depth \<ge> max_depth then Inr (open_tie @ ''...'' @ close_tie)
           else
             let len = int (length lst);
                 has_ellipsis = len > py_or ellipsis len
             in case collect (map (\<lambda>v. u_repr h v None indent max_depth (depth + 1))
                        (enumerate_until 0 (py_or ellipsis len) lst)) of
                  Inl e \<Rightarrow> Inl e
                | Inr values \<Rightarrow>
                    Inr (iterable_write open_tie close_tie values
                           (case lines of None \<Rightarrow> iterable_layout values has_ellipsis | Some l \<Rightarrow> l)
                           has_ellipsis indent))"
| "object_repr h obj flds lines field_lines indent max_depth depth =
     (if depth \<ge> max_depth then Inr (class_name obj @ ''(...)'')
      else
        case collect (map (\<lambda>field.
                 case resolve_field obj field of
                   Inl e \<Rightarrow> Inl e
                 | Inr v \<Rightarrow>
                     (if v = Unbounded then Inr (field, Sentinel)
                      else case u_repr h v (field_mode field_lines field) indent max_depth (depth + 1) of
                             Inl e \<Rightarrow> Inl e
                           | Inr s \<Rightarrow> Inr (field, Text s)))
               (object_fields obj flds)) of
          Inl e \<Rightarrow> Inl e
        | Inr values \<Rightarrow>
            (case (case lines of None \<Rightarrow> object_layout values | Some l \<Rightarrow> Inr l) of
               Inl e \<Rightarrow> Inl e
             | Inr l \<Rightarrow> Inr (object_write (class_name obj) values l indent)))"
| "kis_repr h self depth =
     object_repr h self
       (if kis_fields self = [] then None else Some (kis_fields self))
       (kis_lines self) (kis_field_lines self) (kis_indent self) (kis_max_depth self) depth"
  by pat_completeness auto

lemma depth_bound_ge: "max_depth \<le> depth_bound h max_depth"
  unfolding depth_bound_def by (rule Max_ge) simp_all

lemma class_depths_mem: "KisObject ob \<in> set h \<Longrightarrow> kis_max_depth ob \<in> set (class_depths h)"
  by (induction h rule: class_depths.induct) auto

lemma depth_bound_kis:
  assumes "a < length h" and "h ! a = KisObject ob"
  shows "depth_bound h (kis_max_depth ob) \<le> depth_bound h max_depth"
proof -
  have "KisObject ob \<in> set h"
    using assms by (metis nth_mem)
  then have mem: "kis_max_depth ob \<in> set (class_depths h)"
    by (rule class_depths_mem)
  have "Max (set (kis_max_depth ob # class_depths h)) \<le> Max (set (max_depth # class_depths h))"
    by (rule Max_mono) (use mem in auto)
  then show ?thesis
    unfolding depth_bound_def .
qed

termination u_repr
proof (relation "inv_image (less_than <*lex*> less_than)
    (case_sum
      (case_sum
        (case_sum (\<lambda>(h, obj, lines, indent, md, d). (nat (depth_bound h md - d), 3::nat))
                  (\<lambda>(h, dct, lines, indent, el, md, d). (nat (depth_bound h md - d), 0)))
        (case_sum (\<lambda>(h, lst, lines, indent, el, md, d). (nat (depth_bound h md - d), 2))
                  (\<lambda>(h, tpl, lines, indent, el, md, d). (nat (depth_bound h md - d), 2))))
      (case_sum
        (case_sum (\<lambda>(h, st, lines, indent, el, md, d). (nat (depth_bound h md - d), 2))
                  (\<lambda>(h, lst, tie, lines, indent, el, md, d). (nat (depth_bound h md - d), 1)))
        (case_sum (\<lambda>(h, ob, flds, lines, fl, indent, md, d). (nat (depth_bound h md - d), 1))
                  (\<lambda>(h, ob, d). (nat (depth_bound h (kis_max_depth ob) - d), 2)))))",
    goal_cases)
  case 1
  show ?case by (intro wf_inv_image wf_lex_prod wf_less_than)
next
  case (6 h obj lines indent max_depth depth a ob)
  then show ?case
    using depth_bound_kis [of a h ob max_depth] by auto
next
  case (7 h dct lines indent ellipsis max_depth depth)
  then show ?case
    using depth_bound_ge [of max_depth h] by auto
next
  case (11 h lst tie lines indent ellipsis max_depth depth)
  then show ?case
    using depth_bound_ge [of max_depth h] by auto
next
  case (12 h obj flds lines field_lines indent max_depth depth)
  then show ?case
    using depth_bound_ge [of max_depth h] by auto
qed auto

declare u_repr.simps [simp del] dict_repr.simps [simp del] list_repr.simps [simp del]
  tuple_repr.simps [simp del] set_repr.simps [simp del] u_iterable_repr.simps [simp del]
  object_repr.simps [simp del] kis_repr.simps [simp del]

subsection \<open>The calls of \<^verbatim>\<open>_repr\<close>\<close>

text \<open>
  A call of \<^verbatim>\<open>_repr\<close> is given by its value, its \<^verbatim>\<open>max_depth\<close> and its \<^verbatim>\<open>_depth\<close>.
  \<open>repr_calls h c\<close> lists the calls of \<^verbatim>\<open>_repr\<close> that the call \<open>c\<close> makes through the
  renderer it dispatches to, when no exception ends that renderer's loop early: one per
  entry of a container, at the next depth; one per readable field of a decorated object, at
  the next depth and with the \<^verbatim>\<open>max_depth\<close> of the object's class, unless the object is
  itself at its depth limit. \<open>reaches h c c'\<close>: the call \<open>c'\<close> is \<open>c\<close> or is nested in it.
\<close>

type_synonym call = "pyval \<times> int \<times> int"

definition repr_calls :: "heap \<Rightarrow> call \<Rightarrow> call list" where
  "repr_calls h c =
     (case c of (obj, max_depth, depth) \<Rightarrow>
        if depth \<ge> max_depth then []
        else case obj of
          Ref a \<Rightarrow>
            (if a < length h then
               (case h ! a of
                  Dict dct \<Rightarrow> map (\<lambda>(k, v). (v, max_depth, depth + 1)) dct
                | List lst \<Rightarrow> map (\<lambda>v. (v, max_depth, depth + 1)) lst
                | Tuple tpl \<Rightarrow> map (\<lambda>v. (v, max_depth, depth + 1)) tpl
                | PySet st \<Rightarrow> map (\<lambda>v. (v, max_depth, depth + 1)) st
                | KisObject ob \<Rightarrow>
                    if depth \<ge> kis_max_depth ob then []
                    else concat (map (\<lambda>field.
                           case resolve_field ob field of
                             Inl e \<Rightarrow> []
                           | Inr v \<Rightarrow> if v = Unbounded then []
                                       else [(v, kis_max_depth ob, depth + 1)])
                         (object_fields ob (if kis_fields ob = [] then None
                                            else Some (kis_fields ob)))))
             else [])
        | Leaf l \<Rightarrow> []
        | Unbounded \<Rightarrow> [])"

inductive reaches :: "heap \<Rightarrow> call \<Rightarrow> call \<Rightarrow> bool" for h :: heap and c :: call where
  root: "reaches h c c"
| nested: "reaches h c c' \<Longrightarrow> c'' \<in> set (repr_calls h c') \<Longrightarrow> reaches h c c''"


subsection \<open>The renderers with a log of their calls\<close>








subsection \<open>Example values\<close>

text \<open>The default \<^verbatim>\<open>indent\<close> of every renderer: four spaces.\<close>

definition default_indent :: string where
  "default_indent = ''    ''"

definition ints :: "int list \<Rightarrow> pyval list" where
  "ints xs = map (\<lambda>i. Leaf (PyInt i)) xs"

text \<open>\<^verbatim>\<open>{"a": 1, "b": 2, "c": 3, "d": 4, "e": 5, "f": 6, "g": 7}\<close>\<close>

definition abc7 :: "(leaf \<times> pyval) list" where
  "abc7 = [(PyStr ''a'', Leaf (PyInt 1)), (PyStr ''b'', Leaf (PyInt 2)), (PyStr ''c'', Leaf (PyInt 3)),
           (PyStr ''d'', Leaf (PyInt 4)), (PyStr ''e'', Leaf (PyInt 5)), (PyStr ''f'', Leaf (PyInt 6)),
           (PyStr ''g'', Leaf (PyInt 7))]"

text \<open>
  An object of a class \<^verbatim>\<open>Order\<close> decorated with \<^verbatim>\<open>@kis_repr("symbol", "price")\<close>, whose
  attribute \<^verbatim>\<open>symbol\<close> is \<^verbatim>\<open>"AAPL"\<close> and whose attribute \<^verbatim>\<open>price\<close> was never set.
\<close>

definition order :: kis_object where
  "order = \<lparr>class_name = ''Order'', dir = [''price'', ''symbol''],
            attrs = [(''symbol'', Value (Leaf (PyStr ''AAPL'')))],
            kis_fields = [''symbol'', ''price''], kis_lines = None, kis_field_lines = None,
            kis_indent = ''    '', kis_max_depth = 7\<rparr>"

text \<open>\<^verbatim>\<open>[[[[[[[[1]]]]]]]]\<close>: eight lists, cell 0 the outermost.\<close>

definition nested8 :: heap where
  "nested8 = [List [Ref 1], List [Ref 2], List [Ref 3], List [Ref 4], List [Ref 5],
              List [Ref 6], List [Ref 7], List [Leaf (PyInt 1)]]"




text \<open>
  An object of a class decorated with \<^verbatim>\<open>@kis_repr("name", "number", "balance",
  lines="multiple")\<close>: \<^verbatim>\<open>name\<close> is set, \<^verbatim>\<open>number\<close> was never set, and \<^verbatim>\<open>balance\<close> is a
  property that raises \<^verbatim>\<open>KeyError\<close>.
\<close>

definition account :: kis_object where
  "account = \<lparr>class_name = ''Account'', dir = [''balance'', ''name'', ''number''],
              attrs = [(''name'', Value (Leaf (PyStr ''kim''))), (''balance'', Raises ''KeyError'')],
              kis_fields = [''name'', ''number'', ''balance''], kis_lines = Some Multiple,
              kis_field_lines = None, kis_indent = ''    '', kis_max_depth = 7\<rparr>"

text \<open>
  An object of a class decorated with \<^verbatim>\<open>@kis_repr("price", lines="single")\<close> whose
  attribute \<^verbatim>\<open>price\<close> holds the object \<^verbatim>\<open>UNBOUNDED\<close>.
\<close>

definition quote :: kis_object where
  "quote = \<lparr>class_name = ''Quote'', dir = [''price''],
            attrs = [(''price'', Value Unbounded)],
            kis_fields = [''price''], kis_lines = Some Single, kis_field_lines = None,
            kis_indent = ''    '', kis_max_depth = 7\<rparr>"

section \<open>Auxiliary facts\<close>

lemma collect_Inl: "collect rs = Inl e \<Longrightarrow> Inl e \<in> set rs"
  by (induction rs rule: collect.induct) (auto split: sum.splits)

lemma collect_first_error:
  "(\<And>r. r \<in> set pre \<Longrightarrow> \<exists>x. r = Inr x) \<Longrightarrow> collect (pre @ Inl e # post) = Inl e"
proof (induction pre)
  case Nil
  show ?case by simp
next
  case (Cons r pre)
  from Cons.prems [of r] obtain x where r: "r = Inr x" by auto
  have "collect (pre @ Inl e # post) = Inl e"
    by (rule Cons.IH) (simp add: Cons.prems)
  with r show ?case by simp
qed

lemma collect_has_error: "Inl e \<in> set rs \<Longrightarrow> \<exists>e'. collect rs = Inl e'"
  by (induction rs rule: collect.induct) (auto split: sum.splits)


lemma sum_field_costs_error: "sum_field_costs kvs = Inl e \<Longrightarrow> \<exists>m. e = TypeError m"
  by (induction kvs rule: sum_field_costs.induct) (auto split: sum.splits elim: py_len.elims)

lemma any_newline_error: "any_newline kvs = Inl e \<Longrightarrow> \<exists>m. e = TypeError m"
  by (induction kvs rule: any_newline.induct) (auto split: sum.splits if_splits elim: has_newline.elims)

lemma object_layout_error: "object_layout values = Inl e \<Longrightarrow> \<exists>m. e = TypeError m"
  unfolding object_layout_def
  by (auto split: if_splits sum.splits dest: sum_field_costs_error any_newline_error)


lemma collect_map_Inl: "collect (map f xs) = Inl e \<Longrightarrow> \<exists>x \<in> set xs. f x = Inl e"
  by (drule collect_Inl) auto

lemma no_value_error:
  "u_repr h obj lines indent max_depth depth \<noteq> Inl (ValueError m)"
  "dict_repr h dct lines indent ellipsis max_depth depth \<noteq> Inl (ValueError m)"
  "list_repr h lst lines indent ellipsis max_depth depth \<noteq> Inl (ValueError m)"
  "tuple_repr h tpl lines indent ellipsis max_depth depth \<noteq> Inl (ValueError m)"
  "set_repr h st lines indent ellipsis max_depth depth \<noteq> Inl (ValueError m)"
  "length tie \<noteq> 0 \<and> even (length tie) \<longrightarrow>
     u_iterable_repr h lst tie lines indent ellipsis max_depth depth \<noteq> Inl (ValueError m)"
  "object_repr h ob flds lines field_lines indent max_depth depth \<noteq> Inl (ValueError m)"
  "kis_repr h ob depth \<noteq> Inl (ValueError m)"
proof (induction h obj lines indent max_depth depth
    and h dct lines indent ellipsis max_depth depth
    and h lst lines indent ellipsis max_depth depth
    and h tpl lines indent ellipsis max_depth depth
    and h st lines indent ellipsis max_depth depth
    and h lst tie lines indent ellipsis max_depth depth
    and h ob flds lines field_lines indent max_depth depth
    and h ob depth
    rule: u_repr_dict_repr_list_repr_tuple_repr_set_repr_u_iterable_repr_object_repr_kis_repr.induct)
  case (1 h obj lines indent max_depth depth)
  then show ?case
    by (subst u_repr.simps) (auto split: pyval.splits pyobj.splits)
next
  case (2 h dct lines indent ellipsis max_depth depth)
  show ?case
  proof
    assume a: "dict_repr h dct lines indent ellipsis max_depth depth = Inl (ValueError m)"
    then have d: "\<not> max_depth \<le> depth"
      by (auto simp: dict_repr.simps)
    with a obtain kv where kv: "kv \<in> set (enumerate_until 0 (py_or ellipsis (int (length dct))) dct)"
      and r: "(case kv of (k, v) \<Rightarrow>
                case u_repr h v None indent max_depth (depth + 1) of
                  Inl e \<Rightarrow> Inl e | Inr s \<Rightarrow> Inr (builtin_repr k, s)) = Inl (ValueError m)"
      by (auto simp: dict_repr.simps Let_def split: sum.splits dest!: collect_map_Inl)
    obtain k v where [simp]: "kv = (k, v)" by (cases kv)
    from r have "u_repr h v None indent max_depth (depth + 1) = Inl (ValueError m)"
      by (auto split: sum.splits)
    with "2.IH" [OF d refl refl kv, of k v] show False by simp
  qed
next
  case (3 h lst lines indent ellipsis max_depth depth)
  then show ?case by (simp add: list_repr.simps)
next
  case (4 h tpl lines indent ellipsis max_depth depth)
  then show ?case by (simp add: tuple_repr.simps)
next
  case (5 h st lines indent ellipsis max_depth depth)
  then show ?case by (simp add: set_repr.simps)
next
  case (6 h lst tie lines indent ellipsis max_depth depth)
  show ?case
  proof (intro impI notI)
    assume t: "length tie \<noteq> 0 \<and> even (length tie)"
    assume a: "u_iterable_repr h lst tie lines indent ellipsis max_depth depth = Inl (ValueError m)"
    from t have t': "\<not> (length tie = 0 \<or> length tie mod 2 \<noteq> 0)"
      by presburger
    with a have d: "\<not> max_depth \<le> depth"
      by (auto simp: u_iterable_repr.simps Let_def)
    with a t' obtain v where v: "v \<in> set (enumerate_until 0 (py_or ellipsis (int (length lst))) lst)"
      and r: "u_repr h v None indent max_depth (depth + 1) = Inl (ValueError m)"
      by (auto simp: u_iterable_repr.simps Let_def split: sum.splits dest!: collect_map_Inl)
    with "6.IH" [OF t' refl refl d refl refl v] show False by simp
  qed
next
  case (7 h ob flds lines field_lines indent max_depth depth)
  show ?case
  proof
    assume a: "object_repr h ob flds lines field_lines indent max_depth depth = Inl (ValueError m)"
    then have d: "\<not> max_depth \<le> depth"
      by (auto simp: object_repr.simps)
    let ?entry = "\<lambda>field.
        case resolve_field ob field of
          Inl e \<Rightarrow> Inl e
        | Inr v \<Rightarrow>
            (if v = Unbounded then Inr (field, Sentinel)
             else case u_repr h v (field_mode field_lines field) indent max_depth (depth + 1) of
                    Inl e \<Rightarrow> Inl e
                  | Inr s \<Rightarrow> Inr (field, Text s))"
    from a d have "collect (map ?entry (object_fields ob flds)) = Inl (ValueError m)"
      by (auto simp: object_repr.simps split: sum.splits option.splits dest: object_layout_error)
    then obtain f where f: "f \<in> set (object_fields ob flds)" and r: "?entry f = Inl (ValueError m)"
      by (auto dest!: collect_map_Inl)
    from r obtain v where v: "resolve_field ob f = Inr v" "v \<noteq> Unbounded"
      and u: "u_repr h v (field_mode field_lines f) indent max_depth (depth + 1) = Inl (ValueError m)"
      by (auto simp: resolve_field_def split: sum.splits if_splits getattr_result.splits)
    with "7.IH" [OF d f v] show False by simp
  qed
next
  case (8 h self depth)
  then show ?case by (simp add: kis_repr.simps)
qed









text \<open>
  The layout \<^verbatim>\<open>dict_repr\<close> computes has no effect on what it writes; a list, tuple or set
  is on one line by default exactly within the budget; and the layout rule of
  \<^verbatim>\<open>object_repr\<close> raises as soon as a record of at most five fields has a field that
  resolved to \<^verbatim>\<open>UNBOUNDED\<close>.
\<close>

lemma dict_write_ignores_layout:
  "dict_write values Multiple has_ellipsis indent = dict_write values Single has_ellipsis indent"
  by (simp add: dict_write_def)

lemma iterable_layout_single:
  "iterable_layout values has_ellipsis = Single \<longleftrightarrow>
     int (length values) \<le> 5 \<and> \<not> has_ellipsis
     \<and> (\<Sum>v \<leftarrow> values. int (length v) + 2) - 1 \<le> 120
     \<and> (\<forall>v \<in> set values. CHR 0x0A \<notin> set v)"
  by (auto simp: iterable_layout_def SINGLE_LINE_MAX_LENGTH_def list_ex_iff)

lemma sum_field_costs_sentinel:
  \<open>(k, Sentinel) \<in> set kvs \<Longrightarrow>
     sum_field_costs kvs = Inl (TypeError ''object of type 'UnboundedType' has no len()'')\<close>
  by (induction kvs rule: sum_field_costs.induct) (auto split: sum.splits elim: py_len.elims)

lemma object_layout_sentinel:
  \<open>int (length kvs) \<le> 5 \<Longrightarrow> (k, Sentinel) \<in> set kvs \<Longrightarrow>
     object_layout kvs = Inl (TypeError ''object of type 'UnboundedType' has no len()'')\<close>
  by (simp add: object_layout_def sum_field_costs_sentinel)












section \<open>The claims\<close>

subsection \<open>C1: the single-line budget\<close>

text \<open>
  C1. A container with no layout directive is written on one line only if it has at most
  five children and they fit in 120 characters; a dictionary of seven entries is written
  as a block, one pair per line. On the code, \<^verbatim>\<open>dict_repr\<close> computes the layout
  \<^verbatim>\<open>"multiple"\<close> for the seven entries and then tests \<^verbatim>\<open>if lines:\<close>, which is true of
  both layout names, where \<^verbatim>\<open>_iterable_repr\<close> and \<^verbatim>\<open>object_repr\<close> test
  \<^verbatim>\<open>lines == "single"\<close>: the dictionary comes out on one line.
\<close>

theorem dict_seven_entries_on_one_line:
  \<open>dict_layout [(builtin_repr (PyStr ''a''), ''1''), (builtin_repr (PyStr ''b''), ''2''),
       (builtin_repr (PyStr ''c''), ''3''), (builtin_repr (PyStr ''d''), ''4''),
       (builtin_repr (PyStr ''e''), ''5''), (builtin_repr (PyStr ''f''), ''6''),
       (builtin_repr (PyStr ''g''), ''7'')] False = Multiple
   \<and> u_repr [Dict abc7] (Ref 0) None default_indent 7 0 =
     Inr ''{"'a'": 1, "'b'": 2, "'c'": 3, "'d'": 4, "'e'": 5, "'f'": 6, "'g'": 7}''\<close>
  by code_simp

subsection \<open>C2: a field that cannot be read\<close>

text \<open>
  C2. When a field of a record cannot be read, rendering returns normally and prints
  \<^verbatim>\<open>Unbounded\<close> for it. On the code, \<^verbatim>\<open>object_repr\<close> keeps the object \<^verbatim>\<open>UNBOUNDED\<close>
  itself in \<^verbatim>\<open>values\<close>, and with up to five fields and no layout directive it takes
  \<^verbatim>\<open>len(v)\<close> of it, which raises \<^verbatim>\<open>TypeError\<close>. With the layout given, the text is the
  one the claim expects.
\<close>

theorem unreadable_field_raises_type_error:
  \<open>u_repr [KisObject order] (Ref 0) None default_indent 7 0 =
     Inl (TypeError ''object of type 'UnboundedType' has no len()'')
   \<and> object_repr [] order (Some [''symbol'', ''price'']) (Some Single) None default_indent 7 0 =
     Inr ''Order(symbol='AAPL', price=Unbounded)''\<close>
  by code_simp

subsection \<open>C3: the placeholder at the depth limit\<close>

text \<open>
  The claim says that a value reached at \<^verbatim>\<open>depth >= max_depth\<close> is shown by the placeholder
  of its shape. \<^verbatim>\<open>_repr\<close> checks the depth before it looks at the value, so the eighth list
  of \<open>nested8\<close> is shown as \<^verbatim>\<open>...\<close>, not as \<^verbatim>\<open>[...]\<close>.
\<close>

theorem nested_list_generic_placeholder:
  \<open>u_repr nested8 (Ref 0) None default_indent 7 0 = Inr ''[[[[[[[...]]]]]]]''
   \<and> u_repr nested8 (Ref 7) None default_indent 7 7 \<noteq> Inr ''[...]''\<close>
  by code_simp

text \<open>
  C3, as the code has it. At \<^verbatim>\<open>depth >= max_depth\<close> every renderer returns a fixed text
  without looking at the value: \<^verbatim>\<open>_repr\<close> returns \<^verbatim>\<open>...\<close> whatever the shape, and a
  shape's own renderer, entered at such a depth, returns the placeholder of the shape.
\<close>

theorem depth_limit_placeholders:
  assumes "max_depth \<le> depth"
  shows "u_repr h obj lines indent max_depth depth = Inr ''...''
   \<and> dict_repr h dct lines indent ellipsis max_depth depth = Inr ''{:...}''
   \<and> list_repr h lst lines indent ellipsis max_depth depth = Inr ''[...]''
   \<and> tuple_repr h lst lines indent ellipsis max_depth depth = Inr ''(...)''
   \<and> set_repr h lst lines indent ellipsis max_depth depth = Inr ''{...}''
   \<and> object_repr h ob flds lines field_lines indent max_depth depth
       = Inr (class_name ob @ ''(...)'')"
  using assms
  by (simp add: u_repr.simps dict_repr.simps list_repr.simps tuple_repr.simps set_repr.simps
      u_iterable_repr.simps object_repr.simps)

theorem depth_limit_placeholders_witness:
  "(7::int) \<le> 7
   \<and> u_repr nested8 (Ref 7) None default_indent 7 7 = Inr ''...''
   \<and> list_repr nested8 [Leaf (PyInt 1)] None default_indent None 7 7 = Inr ''[...]''
   \<and> object_repr nested8 order None None None default_indent 7 7 = Inr ''Order(...)''"
proof -
  have d: "(7::int) \<le> 7" by simp
  have "class_name order = ''Order''" by (simp add: order_def)
  then show ?thesis
    using depth_limit_placeholders [OF d, where h = nested8 and obj = "Ref 7" and lines = None
        and indent = default_indent and lst = "[Leaf (PyInt 1)]" and ellipsis = None
        and ob = order and flds = None and field_lines = None]
    by simp
qed

subsection \<open>C4: a child with a line break\<close>

text \<open>
  C4. A container one of whose rendered children has a line break is written as a block.
  On the code this holds of lists, tuples, sets and records and fails for dictionaries, by
  the test \<^verbatim>\<open>if lines:\<close> of C1: the list of six numbers is rendered as a block, and the
  dictionary that holds it is written on the one-line path, the key right after the brace
  and the closing brace right after the child.
\<close>

theorem dict_with_block_child_on_one_line:
  \<open>dict_repr [List (ints [1, 2, 3, 4, 5, 6])] [(PyStr ''a'', Ref 0)] None default_indent None 7 0 =
     Inr ''{"'a'": [\<newline>    1,\<newline>    2,\<newline>    3,\<newline>    4,\<newline>    5,\<newline>    6\<newline>]}''\<close>
  by code_simp

subsection \<open>C5: a truncated list\<close>



subsection \<open>C6: truncation\<close>




subsection \<open>C7: the keys of a dictionary\<close>

text \<open>
  C7. A key is written as one application of \<^verbatim>\<open>repr\<close> to it, and the entries come in
  insertion order. On the code, \<^verbatim>\<open>dict_repr\<close> stores \<^verbatim>\<open>repr(k)\<close> and then writes it
  with \<^verbatim>\<open>{k!r}\<close>, a second \<^verbatim>\<open>repr\<close>: the key \<^verbatim>\<open>"a"\<close>, whose \<^verbatim>\<open>repr\<close> is \<^verbatim>\<open>'a'\<close>, is
  written \<^verbatim>\<open>"'a'"\<close>, while the width the layout rule counts for it is that of \<^verbatim>\<open>'a'\<close>.
\<close>

theorem dict_key_repr_applied_twice:
  \<open>builtin_repr (PyStr ''a'') = [CHR 0x27, CHR ''a'', CHR 0x27]
   \<and> dict_repr [] [(PyStr ''a'', Leaf (PyInt 1))] None default_indent None 7 0 = Inr ''{"'a'": 1}''\<close>
  by code_simp

subsection \<open>C8: the depth bound\<close>




subsection \<open>C9: the bracket pair\<close>

text \<open>
  C9. A bracket pair of length zero or of odd length fails at once with the error
  \<^verbatim>\<open>tie must be even length\<close>: it is the first thing \<^verbatim>\<open>_iterable_repr\<close> checks, before
  the depth and before any entry is rendered. With a well-formed pair no renderer ends
  with a \<^verbatim>\<open>ValueError\<close>, whatever the input: the recursion only passes the pairs
  \<^verbatim>\<open>[]\<close>, \<^verbatim>\<open>()\<close> and \<^verbatim>\<open>{}\<close>.
\<close>

theorem tie_checked_before_rendering:
  "(length tie = 0 \<or> odd (length tie) \<longrightarrow>
      u_iterable_repr h lst tie lines indent ellipsis max_depth depth
        = Inl (ValueError ''tie must be even length''))
   \<and> (length tie \<noteq> 0 \<and> even (length tie) \<longrightarrow>
      u_iterable_repr h lst tie lines indent ellipsis max_depth depth \<noteq> Inl (ValueError m))
   \<and> u_repr h obj lines indent max_depth depth \<noteq> Inl (ValueError m)
   \<and> dict_repr h dct lines indent ellipsis max_depth depth \<noteq> Inl (ValueError m)
   \<and> list_repr h lst lines indent ellipsis max_depth depth \<noteq> Inl (ValueError m)
   \<and> tuple_repr h lst lines indent ellipsis max_depth depth \<noteq> Inl (ValueError m)
   \<and> set_repr h lst lines indent ellipsis max_depth depth \<noteq> Inl (ValueError m)
   \<and> object_repr h ob flds lines field_lines indent max_depth depth \<noteq> Inl (ValueError m)"
proof -
  have "length tie = 0 \<or> odd (length tie) \<longrightarrow>
      u_iterable_repr h lst tie lines indent ellipsis max_depth depth
        = Inl (ValueError ''tie must be even length'')"
    by (subst u_iterable_repr.simps) (auto simp: odd_iff_mod_2_eq_one)
  then show ?thesis
    by (simp add: no_value_error)
qed

theorem tie_checked_before_rendering_witness:
  "u_iterable_repr nested8 [Ref 0] ''['' None default_indent None 7 0
       = Inl (ValueError ''tie must be even length'')
   \<and> u_iterable_repr nested8 [Ref 0] ''<>'' None default_indent None 7 0
       \<noteq> Inl (ValueError ''tie must be even length'')"
  using tie_checked_before_rendering [where tie = "''[''" and h = nested8 and lst = "[Ref 0]" and lines = None
        and indent = default_indent and ellipsis = None and max_depth = 7 and depth = 0]
      tie_checked_before_rendering [where tie = "''<>''" and h = nested8 and lst = "[Ref 0]" and lines = None
        and indent = default_indent and ellipsis = None and max_depth = 7 and depth = 0
        and m = "''tie must be even length''"]
  by simp

subsection \<open>C10: which exceptions of a field are caught\<close>

text \<open>
  The claim says that a field is resolved to \<^verbatim>\<open>UNBOUNDED\<close> exactly when reading it raises
  \<^verbatim>\<open>AttributeError\<close>. A field whose value is the object \<^verbatim>\<open>UNBOUNDED\<close> is resolved to it
  with no exception at all: \<^verbatim>\<open>object_repr\<close> tests \<^verbatim>\<open>value is UNBOUNDED\<close> and does not
  ask where the value came from.
\<close>

theorem unbounded_value_without_exception:
  \<open>getattr quote ''price'' = Value Unbounded
   \<and> getattr quote ''price'' \<noteq> AttributeError
   \<and> resolve_field quote ''price'' = Inr Unbounded
   \<and> u_repr [KisObject quote] (Ref 0) None default_indent 7 0 = Inr ''Quote(price=Unbounded)''\<close>
  by code_simp

text \<open>
  C10, as the code has it. A field is resolved to \<^verbatim>\<open>UNBOUNDED\<close> exactly when reading it
  raises \<^verbatim>\<open>AttributeError\<close> or returns the object \<^verbatim>\<open>UNBOUNDED\<close>; any other value that is
  read is kept; any other exception is not caught. When a field of the record raises such
  an exception, \<^verbatim>\<open>object_repr\<close> does not return, and the exception it ends with is that
  one when every field before it was read (or raised \<^verbatim>\<open>AttributeError\<close>) and rendered
  without an exception.
\<close>

theorem only_attribute_error_is_caught:
  "(resolve_field ob f = Inr Unbounded
      \<longleftrightarrow> getattr ob f = AttributeError \<or> getattr ob f = Value Unbounded)
   \<and> (getattr ob f = AttributeError \<longrightarrow> resolve_field ob f = Inr Unbounded)
   \<and> (getattr ob f = Value v \<longrightarrow> resolve_field ob f = Inr v)
   \<and> (getattr ob f = Raises e \<longrightarrow> resolve_field ob f = Inl (Raised e))
   \<and> (getattr ob f = Raises e \<and> depth < max_depth \<and> f \<in> set (object_fields ob flds) \<longrightarrow>
        isl (object_repr h ob flds lines field_lines indent max_depth depth))
   \<and> (getattr ob f = Raises e \<and> depth < max_depth \<and> object_fields ob flds = pre @ f # post
       \<and> list_all (\<lambda>g. case resolve_field ob g of
                          Inl x \<Rightarrow> False
                        | Inr w \<Rightarrow> w = Unbounded
                            \<or> \<not> isl (u_repr h w (field_mode field_lines g) indent max_depth (depth + 1)))
            pre \<longrightarrow>
        object_repr h ob flds lines field_lines indent max_depth depth = Inl (Raised e))"
proof -
  let ?entry = "\<lambda>field.
        case resolve_field ob field of
          Inl e \<Rightarrow> Inl e
        | Inr v \<Rightarrow>
            (if v = Unbounded then Inr (field, Sentinel)
             else case u_repr h v (field_mode field_lines field) indent max_depth (depth + 1) of
                    Inl e \<Rightarrow> Inl e
                  | Inr s \<Rightarrow> Inr (field, Text s))"
  have unfold: "depth < max_depth \<Longrightarrow> collect (map ?entry (object_fields ob flds)) = Inl x \<Longrightarrow>
      object_repr h ob flds lines field_lines indent max_depth depth = Inl x" for x
    by (subst object_repr.simps) simp
  have raised: "getattr ob f = Raises e \<Longrightarrow> ?entry f = Inl (Raised e)"
    by (simp add: resolve_field_def)
  have p4: "isl (object_repr h ob flds lines field_lines indent max_depth depth)"
    if a: "getattr ob f = Raises e \<and> depth < max_depth \<and> f \<in> set (object_fields ob flds)"
  proof -
    from a raised have "Inl (Raised e) \<in> set (map ?entry (object_fields ob flds))"
      by force
    then have "\<exists>e'. collect (map ?entry (object_fields ob flds)) = Inl e'"
      by (rule collect_has_error)
    then obtain e' where "collect (map ?entry (object_fields ob flds)) = Inl e'" ..
    with a unfold [of e'] show ?thesis by simp
  qed
  have p5: "object_repr h ob flds lines field_lines indent max_depth depth = Inl (Raised e)"
    if a: "getattr ob f = Raises e \<and> depth < max_depth \<and> object_fields ob flds = pre @ f # post
       \<and> list_all (\<lambda>g. case resolve_field ob g of
                          Inl x \<Rightarrow> False
                        | Inr w \<Rightarrow> w = Unbounded
                            \<or> \<not> isl (u_repr h w (field_mode field_lines g) indent max_depth (depth + 1)))
            pre"
  proof -
    have ok: "\<exists>x. r = Inr x" if "r \<in> set (map ?entry pre)" for r
    proof -
      from that obtain g where g: "g \<in> set pre" and r: "r = ?entry g" by auto
      from a g have "case resolve_field ob g of
                          Inl x \<Rightarrow> False
                        | Inr w \<Rightarrow> w = Unbounded
                            \<or> \<not> isl (u_repr h w (field_mode field_lines g) indent max_depth (depth + 1))"
        by (auto simp: list_all_iff)
      then show ?thesis
        unfolding r by (auto split: sum.splits)
    qed
    have "collect (map ?entry pre @ Inl (Raised e) # map ?entry post) = Inl (Raised e)"
      by (rule collect_first_error) (rule ok)
    with a raised have "collect (map ?entry (object_fields ob flds)) = Inl (Raised e)"
      by simp
    with a unfold show ?thesis by simp
  qed
  have i: "resolve_field ob f = Inr Unbounded
      \<longleftrightarrow> getattr ob f = AttributeError \<or> getattr ob f = Value Unbounded"
    by (auto simp: resolve_field_def split: getattr_result.splits)
  have o: "(getattr ob f = AttributeError \<longrightarrow> resolve_field ob f = Inr Unbounded)
   \<and> (getattr ob f = Value v \<longrightarrow> resolve_field ob f = Inr v)
   \<and> (getattr ob f = Raises e \<longrightarrow> resolve_field ob f = Inl (Raised e))
   \<and> (getattr ob f = Raises e \<and> depth < max_depth \<and> f \<in> set (object_fields ob flds) \<longrightarrow>
        isl (object_repr h ob flds lines field_lines indent max_depth depth))
   \<and> (getattr ob f = Raises e \<and> depth < max_depth \<and> object_fields ob flds = pre @ f # post
       \<and> list_all (\<lambda>g. case resolve_field ob g of
                          Inl x \<Rightarrow> False
                        | Inr w \<Rightarrow> w = Unbounded
                            \<or> \<not> isl (u_repr h w (field_mode field_lines g) indent max_depth (depth + 1)))
            pre \<longrightarrow>
        object_repr h ob flds lines field_lines indent max_depth depth = Inl (Raised e))"
    using p4 p5 by (auto simp: resolve_field_def)
  show ?thesis
    by (rule conjI [OF i o])
qed

theorem only_attribute_error_is_caught_witness:
  \<open>getattr account ''number'' = AttributeError \<and> resolve_field account ''number'' = Inr Unbounded
   \<and> getattr quote ''price'' = Value Unbounded \<and> resolve_field quote ''price'' = Inr Unbounded
   \<and> getattr account ''balance'' = Raises ''KeyError''
   \<and> resolve_field account ''balance'' = Inl (Raised ''KeyError'')
   \<and> object_repr [] account (Some [''name'', ''number'', ''balance'']) (Some Multiple) None
        default_indent 7 0 = Inl (Raised ''KeyError'')\<close>
proof -
  have g1: "getattr account ''number'' = AttributeError" by code_simp
  have g2: "getattr account ''balance'' = Raises ''KeyError''" by code_simp
  have g3: "getattr quote ''price'' = Value Unbounded" by code_simp
  from only_attribute_error_is_caught [where ob = quote and f = "''price''"] g3
  have r0: "resolve_field quote ''price'' = Inr Unbounded" by simp
  have d: "(0::int) < 7" by simp
  have fs: "object_fields account (Some [''name'', ''number'', ''balance''])
      = [''name'', ''number''] @ ''balance'' # []" by code_simp
  have pre: "list_all (\<lambda>g. case resolve_field account g of
                          Inl x \<Rightarrow> False
                        | Inr w \<Rightarrow> w = Unbounded
                            \<or> \<not> isl (u_repr [] w (field_mode None g) default_indent 7 (0 + 1)))
            [''name'', ''number'']"
    by code_simp
  note t = only_attribute_error_is_caught [where ob = account and e = "''KeyError''" and depth = 0 and max_depth = 7
      and flds = "Some [''name'', ''number'', ''balance'']" and pre = "[''name'', ''number'']"
      and post = "[]" and h = "[]" and field_lines = None and indent = default_indent
      and lines = "Some Multiple"]
  from t [where f = "''number''"] g1
  have r1: "resolve_field account ''number'' = Inr Unbounded" by simp
  from t [where f = "''balance''"] g2 d fs pre
  have r2: "resolve_field account ''balance'' = Inl (Raised ''KeyError'')"
    and r3: "object_repr [] account (Some [''name'', ''number'', ''balance'']) (Some Multiple) None
        default_indent 7 0 = Inl (Raised ''KeyError'')"
    by simp_all
  from g1 g2 g3 r0 r1 r2 r3 show ?thesis by simp
qed

end
